theory Spec2Isabelle
  imports Main "HOL-Library.Word" "HOL-Library.Signed_Division"
begin

unbundle bit_operations_syntax

section \<open>The Go library functions the client calls\<close>

text \<open>
  Go strings are byte sequences, here \<open>string\<close>.  The functions of this section are
  those of the packages \<^verbatim>\<open>strings\<close>, \<^verbatim>\<open>strconv\<close>, \<^verbatim>\<open>bufio\<close> and \<^verbatim>\<open>regexp\<close> that the
  client calls, with the behaviour their documentation gives them on a 64-bit platform.
\<close>

definition CR :: char where "CR = CHR 0x0D"
definition LF :: char where "LF = CHR 0x0A"
definition CRLF :: string where "CRLF = [CR, LF]"

text \<open>Slicing \<^verbatim>\<open>s[lo:hi]\<close>, \<^verbatim>\<open>s[lo:]\<close> and indexing \<^verbatim>\<open>s[i]\<close> panic out of range: \<open>None\<close>.\<close>

definition slice :: "'a list \<Rightarrow> int \<Rightarrow> int \<Rightarrow> 'a list option" where
  "slice s lo hi =
     (if 0 \<le> lo \<and> lo \<le> hi \<and> hi \<le> int (length s)
      then Some (take (nat (hi - lo)) (drop (nat lo) s)) else None)"

definition sliceFrom :: "'a list \<Rightarrow> int \<Rightarrow> 'a list option" where
  "sliceFrom s lo = slice s lo (int (length s))"

definition sliceTo :: "'a list \<Rightarrow> int \<Rightarrow> 'a list option" where
  "sliceTo s hi = slice s 0 hi"

definition index :: "'a list \<Rightarrow> int \<Rightarrow> 'a option" where
  "index s i = (if 0 \<le> i \<and> i < int (length s) then Some (s ! nat i) else None)"

definition isDigit :: "char \<Rightarrow> bool" where
  "isDigit c = (48 \<le> (of_char c :: nat) \<and> (of_char c :: nat) \<le> 57)"

definition digitVal :: "char \<Rightarrow> int" where
  "digitVal c = int (of_char c) - 48"

definition digitChar :: "nat \<Rightarrow> char" where
  "digitChar d = ''0123456789'' ! d"

text \<open>The decimal value of a string of digits, most significant digit first.\<close>

definition decval :: "string \<Rightarrow> int" where
  "decval s = foldl (\<lambda>n ch. n * 10 + digitVal ch) 0 s"

text \<open>\<^verbatim>\<open>strconv.Itoa\<close>: decimal digits, with a minus sign for a negative number.\<close>

fun natstr :: "nat \<Rightarrow> string" where
  "natstr n = (if n < 10 then [digitChar n] else natstr (n div 10) @ [digitChar (n mod 10)])"

declare natstr.simps [simp del]

definition Itoa :: "int \<Rightarrow> string" where
  "Itoa i = (if i < 0 then CHR ''-'' # natstr (nat (- i)) else natstr (nat i))"

text \<open>\<^verbatim>\<open>strings.HasPrefix\<close>, \<^verbatim>\<open>strings.Join\<close>, and \<^verbatim>\<open>strings.Split\<close> at a one-byte separator
  (the client splits at a line feed only).\<close>

definition HasPrefix :: "string \<Rightarrow> string \<Rightarrow> bool" where
  "HasPrefix s p = (length p \<le> length s \<and> take (length p) s = p)"

fun Join :: "string list \<Rightarrow> string \<Rightarrow> string" where
  "Join [] sep = []"
| "Join [l] sep = l"
| "Join (l # ls) sep = l @ sep @ Join ls sep"

fun Split :: "string \<Rightarrow> char \<Rightarrow> string list" where
  "Split [] sep = [[]]"
| "Split (c # cs) sep =
     (if c = sep then [] # Split cs sep
      else (case Split cs sep of l # ls \<Rightarrow> (c # l) # ls | [] \<Rightarrow> [[c]]))"

text \<open>\<^verbatim>\<open>strings.Contains\<close> and \<^verbatim>\<open>strings.LastIndex\<close> (the greatest index at which
  \<open>sub\<close> occurs in \<open>s\<close>, or \<open>-1\<close>).\<close>

definition occursAt :: "string \<Rightarrow> string \<Rightarrow> nat \<Rightarrow> bool" where
  "occursAt s sub i = (i \<le> length s \<and> HasPrefix (drop i s) sub)"

definition Contains :: "string \<Rightarrow> string \<Rightarrow> bool" where
  "Contains s sub = list_ex (occursAt s sub) [0..<Suc (length s)]"

definition LastIndex :: "string \<Rightarrow> string \<Rightarrow> int" where
  "LastIndex s sub =
     (case filter (occursAt s sub) (rev [0..<Suc (length s)]) of
        [] \<Rightarrow> - 1
      | i # _ \<Rightarrow> int i)"

text \<open>
  The reply type of reply.go comes first, since a reply is also an error value:
  \<^verbatim>\<open>type Code int\<close> and \<^verbatim>\<open>type Reply struct { Code; Msg string }\<close>.
\<close>

type_synonym Code = int

record Reply =
  Code :: Code
  Msg :: string

definition zeroReply :: Reply where
  "zeroReply = \<lparr>Code = 0, Msg = []\<rparr>"

text \<open>
  Errors.  \<^verbatim>\<open>errors.New\<close> gives an \<open>ErrorString\<close>; \<^verbatim>\<open>strconv\<close> reports a
  \<^verbatim>\<open>*NumError\<close> for bad syntax or a value out of range; a \<^verbatim>\<open>Reply\<close> is itself an error
  value; the connection reports transport errors such as \<^verbatim>\<open>io.EOF\<close>.
\<close>

datatype error =
    ErrorString string
  | NumErrorSyntax string
  | NumErrorRange string
  | ReplyError Reply
  | TransportError string

definition EOF :: error where
  "EOF = TransportError ''EOF''"

text \<open>
  \<^verbatim>\<open>strconv.Atoi\<close> with a 64-bit \<^verbatim>\<open>int\<close>: an optional sign, then at least one decimal
  digit and nothing else.  On a syntax error the value is 0; on a range error it is the
  nearest representable value.
\<close>

definition Atoi :: "string \<Rightarrow> int \<times> error option" where
  "Atoi s =
     (let neg = (s \<noteq> [] \<and> hd s = CHR ''-'');
          body = (if s \<noteq> [] \<and> (hd s = CHR ''-'' \<or> hd s = CHR ''+'') then tl s else s)
      in if body = [] \<or> \<not> list_all isDigit body then (0, Some (NumErrorSyntax s))
         else if \<not> neg \<and> 2 ^ 63 \<le> decval body then (2 ^ 63 - 1, Some (NumErrorRange s))
         else if neg \<and> 2 ^ 63 < decval body then (- (2 ^ 63), Some (NumErrorRange s))
         else (if neg then - decval body else decval body, None))"

text \<open>
  \<^verbatim>\<open>textproto.Reader.ReadLine\<close> over a buffer holding \<open>s\<close>: a line ends at a line feed,
  which is dropped together with a carriage return just before it; what follows the last
  line feed is a line too unless it is empty.  \<open>textLines s\<close> are the lines read until the
  end of the buffer.
\<close>

definition dropCR :: "string \<Rightarrow> string" where
  "dropCR l = (if l \<noteq> [] \<and> last l = CR then butlast l else l)"

fun readLines :: "string list \<Rightarrow> string list" where
  "readLines [] = []"
| "readLines [l] = (if l = [] then [] else [l])"
| "readLines (l # ls) = dropCR l # readLines ls"

definition textLines :: "string \<Rightarrow> string list" where
  "textLines s = readLines (Split s LF)"

section \<open>Reply codes and replies (reply.go)\<close>

text \<open>
  Go's \<^verbatim>\<open>/\<close> on integers truncates towards zero, which is \<open>sdiv\<close> on \<open>int\<close> (and not
  \<open>div\<close>, which rounds down).
\<close>

definition CodePassive :: Code where "CodePassive = 227"
definition CodeExtendedPassive :: Code where "CodeExtendedPassive = 229"

definition Preliminary :: "Code \<Rightarrow> bool" where
  "Preliminary code = (code sdiv 100 = 1)"

definition Positive :: "Code \<Rightarrow> bool" where
  "Positive code =
     (let firstDigit = code sdiv 100
      in firstDigit = 1 \<or> firstDigit = 2 \<or> firstDigit = 3)"

definition Complete :: "Code \<Rightarrow> bool" where
  "Complete code =
     (let firstDigit = code sdiv 100
      in firstDigit = 2 \<or> firstDigit = 4 \<or> firstDigit = 5)"

definition PositiveComplete :: "Code \<Rightarrow> bool" where
  "PositiveComplete code = (code sdiv 100 = 2)"

definition Temporary :: "Code \<Rightarrow> bool" where
  "Temporary code = (code sdiv 100 = 4)"

text \<open>\<^verbatim>\<open>Code.String\<close> is \<^verbatim>\<open>strconv.Itoa\<close>; \<^verbatim>\<open>Reply.String\<close> renders a reply as wire text.\<close>

definition String :: "Reply \<Rightarrow> string" where
  "String r =
     (let lines = Split (Msg r) LF
      in if length lines > 1 then
           let lines = lines[0 := Itoa (Code r) @ ''-'' @ lines ! 0];
               lines = lines[length lines - 1 := Itoa (Code r) @ '' '' @ lines ! (length lines - 1)]
           in Join lines CRLF
         else Itoa (Code r) @ '' '' @ Msg r)"

section \<open>The control connection and the reply reader (client.go)\<close>

text \<open>
  The world the client acts on.  The control connection is a script of the outcomes of
  the successive \<^verbatim>\<open>ReadLine\<close> calls (\<open>inbox\<close>, end of file once it is used up), the lines
  written so far (\<open>outbox\<close>) and the outcomes of the successive writes (\<open>wscript\<close>, success
  once it is used up).  \<open>remoteAddr\<close> is the control connection's remote address,
  \<^verbatim>\<open>client.c.RemoteAddr()\<close>.  Data sockets are numbered in the order they are dialled: \<open>dialled\<close> is the log
  of the addresses, \<open>dscript\<close> the outcomes of the successive dials, \<open>closeCalls\<close> the
  sockets \<^verbatim>\<open>Close\<close> was called on, and \<open>cscript\<close> the outcomes of those calls.
\<close>

record TCPAddr =
  IP :: "8 word list"
  Port :: int

text \<open>
  A \<^verbatim>\<open>net.Addr\<close> is either a \<^verbatim>\<open>*net.TCPAddr\<close>, whose \<^verbatim>\<open>Network()\<close> is always
  \<^verbatim>\<open>"tcp"\<close>, or a value of another type, given here by what its \<^verbatim>\<open>Network()\<close> returns.
  The type assertion \<^verbatim>\<open>.(*net.TCPAddr)\<close> panics on the latter: \<open>None\<close>.
\<close>

datatype Addr = TCPAddrOf TCPAddr | OtherAddr string

fun Network :: "Addr \<Rightarrow> string" where
  "Network (TCPAddrOf a) = ''tcp''"
| "Network (OtherAddr network) = network"

fun assertTCPAddr :: "Addr \<Rightarrow> TCPAddr option" where
  "assertTCPAddr (TCPAddrOf a) = Some a"
| "assertTCPAddr (OtherAddr network) = None"

record world =
  inbox :: "(error + string) list"
  outbox :: "string list"
  wscript :: "error option list"
  remoteAddr :: Addr
  dialled :: "TCPAddr list"
  dscript :: "error option list"
  closeCalls :: "nat list"
  cscript :: "error option list"

definition ReadLine :: "world \<Rightarrow> (string \<times> error option) \<times> world" where
  "ReadLine w =
     (case inbox w of
        [] \<Rightarrow> (([], Some EOF), w)
      | Inl e # rest \<Rightarrow> (([], Some e), w\<lparr>inbox := rest\<rparr>)
      | Inr l # rest \<Rightarrow> ((l, None), w\<lparr>inbox := rest\<rparr>))"

definition PrintfLine :: "world \<Rightarrow> string \<Rightarrow> error option \<times> world" where
  "PrintfLine w command =
     (case wscript w of
        Some e # rest \<Rightarrow> (Some e, w\<lparr>wscript := rest\<rparr>)
      | None # rest \<Rightarrow> (None, w\<lparr>outbox := outbox w @ [command @ CRLF], wscript := rest\<rparr>)
      | [] \<Rightarrow> (None, w\<lparr>outbox := outbox w @ [command @ CRLF]\<rparr>))"

text \<open>
  The loop of \<^verbatim>\<open>response\<close> that reads the lines after the first of a multi-line reply.
  The result \<open>None\<close> is a panic (a slice out of range).
\<close>

function readLoop ::
  "string \<Rightarrow> string list \<Rightarrow> world \<Rightarrow> ((string list \<times> error option) \<times> world) option" where
  "readLoop endPrefix lines w =
     (case ReadLine w of
        ((line, Some err), w') \<Rightarrow> Some ((lines, Some err), w')
      | ((line, None), w') \<Rightarrow>
          if HasPrefix line endPrefix then
            (case sliceFrom line (int (length endPrefix)) of
               None \<Rightarrow> None
             | Some rest \<Rightarrow> Some ((lines @ [rest], None), w'))
          else readLoop endPrefix (lines @ [line]) w')"
  by pat_completeness auto
termination
  by (relation "measure (\<lambda>(endPrefix, lines, w). length (inbox w))")
     (auto simp: ReadLine_def split: list.splits sum.splits)

declare readLoop.simps [simp del]

definition response :: "world \<Rightarrow> ((Reply \<times> error option) \<times> world) option" where
  "response w =
     (case ReadLine w of
        ((line, Some err), w1) \<Rightarrow> Some ((zeroReply, Some err), w1)
      | ((line, None), w1) \<Rightarrow>
          if length line < 4 then
            Some ((zeroReply, Some (ErrorString ''Short response line in FTP'')), w1)
          else
            (case sliceTo line 3 of
               None \<Rightarrow> None
             | Some digits \<Rightarrow>
                 (case Atoi digits of
                    (code, Some err) \<Rightarrow> Some ((zeroReply, Some err), w1)
                  | (code, None) \<Rightarrow>
                      (let reply = \<lparr>Code = code, Msg = []\<rparr>
                       in case index line 3 of
                            None \<Rightarrow> None
                          | Some ch \<Rightarrow>
                              if ch = CHR ''-'' then
                                (case sliceFrom line 4 of
                                   None \<Rightarrow> None
                                 | Some first \<Rightarrow>
                                     (case readLoop (Itoa code @ '' '') [first] w1 of
                                        None \<Rightarrow> None
                                      | Some ((lines, err), w2) \<Rightarrow>
                                          Some ((reply\<lparr>Msg := Join lines [LF]\<rparr>, err), w2)))
                              else if ch = CHR '' '' then
                                (case sliceFrom line 4 of
                                   None \<Rightarrow> None
                                 | Some rest \<Rightarrow> Some ((reply\<lparr>Msg := rest\<rparr>, None), w1))
                              else
                                Some ((zeroReply,
                                       Some (ErrorString ''Expected space after FTP response code'')),
                                      w1)))))"

definition sendCommand :: "world \<Rightarrow> string \<Rightarrow> ((Reply \<times> error option) \<times> world) option" where
  "sendCommand w command =
     (case PrintfLine w command of
        (Some err, w1) \<Rightarrow> Some ((zeroReply, Some err), w1)
      | (None, w1) \<Rightarrow> response w1)"

section \<open>Passive addresses (client.go)\<close>

text \<open>
  \<^verbatim>\<open>pasvRegexp.FindStringSubmatch\<close> for the pattern
  \<^verbatim>\<open>([0-9]+),([0-9]+),([0-9]+),([0-9]+),([0-9]+),([0-9]+)\<close>.  Go's \<^verbatim>\<open>regexp\<close> returns the
  leftmost match and, among the matches that start there, the one a backtracking search
  finds first.  Every group is greedy, and a run of digits that is to be followed by a comma
  has to be the whole run, so at a given start the only candidate takes six maximal runs of
  digits with single commas between them: \<open>pasvAt 6\<close>.  \<open>pasvFind\<close> tries the starts from
  left to right.  The result is the whole match followed by the six groups, or \<open>None\<close> for
  Go's \<^verbatim>\<open>nil\<close>.
\<close>

fun pasvAt :: "nat \<Rightarrow> string \<Rightarrow> string list option" where
  "pasvAt 0 s = Some []"
| "pasvAt (Suc n) s =
     (let d = takeWhile isDigit s; r = dropWhile isDigit s
      in if d = [] then None
         else if n = 0 then Some [d]
         else (case r of
                 [] \<Rightarrow> None
               | c # r' \<Rightarrow> if c = CHR '','' then map_option ((#) d) (pasvAt n r') else None))"

fun pasvFind :: "string \<Rightarrow> string list option" where
  "pasvFind [] = None"
| "pasvFind (c # cs) =
     (case pasvAt 6 (c # cs) of
        Some groups \<Rightarrow> Some groups
      | None \<Rightarrow> pasvFind cs)"

definition pasvRegexp_FindStringSubmatch :: "string \<Rightarrow> string list option" where
  "pasvRegexp_FindStringSubmatch msg = map_option (\<lambda>groups. Join groups '','' # groups) (pasvFind msg)"

definition parsePasvReply :: "string \<Rightarrow> (error + TCPAddr) option" where
  "parsePasvReply msg =
     (case pasvRegexp_FindStringSubmatch msg of
        None \<Rightarrow> Some (Inl (ErrorString ''PASV reply provided no port''))
      | Some numberStrings \<Rightarrow>
          (let numbers = map (\<lambda>s. (word_of_int (fst (Atoi s)) :: 8 word)) numberStrings
           in case slice numbers 1 5 of
                None \<Rightarrow> None
              | Some ip \<Rightarrow>
                  (case index numbers 5 of
                     None \<Rightarrow> None
                   | Some hi \<Rightarrow>
                       (case index numbers 6 of
                          None \<Rightarrow> None
                        | Some lo \<Rightarrow>
                            Some (Inr \<lparr>IP = ip, Port = push_bit 8 (uint hi) OR uint lo\<rparr>)))))"

definition epsvStart :: string where "epsvStart = ''(|||''"
definition epsvEnd :: string where "epsvEnd = ''|)''"

definition parseEpsvReply :: "string \<Rightarrow> (int \<times> error option) option" where
  "parseEpsvReply msg =
     (let start = LastIndex msg epsvStart
      in if start = - 1 then Some (0, Some (ErrorString ''EPSV reply provided no port''))
         else
           let start = start + int (length epsvStart);
               end = LastIndex msg epsvEnd
           in if end = - 1 \<or> end \<le> start
              then Some (0, Some (ErrorString ''EPSV reply provided no port''))
              else (case slice msg start end of
                      None \<Rightarrow> None
                    | Some digits \<Rightarrow> Some (Atoi digits)))"

definition obtainPassiveAddress :: "world \<Rightarrow> ((error + TCPAddr) \<times> world) option" where
  "obtainPassiveAddress w =
     (if Network (remoteAddr w) = ''tcp6'' then
        (case sendCommand w ''EPSV'' of
           None \<Rightarrow> None
         | Some ((reply, Some err), w1) \<Rightarrow> Some (Inl err, w1)
         | Some ((reply, None), w1) \<Rightarrow>
             if Code reply \<noteq> CodeExtendedPassive then Some (Inl (ReplyError reply), w1)
             else
               (case parseEpsvReply (Msg reply) of
                  None \<Rightarrow> None
                | Some (port, Some err) \<Rightarrow> Some (Inl err, w1)
                | Some (port, None) \<Rightarrow>
                    (case assertTCPAddr (remoteAddr w1) of
                       None \<Rightarrow> None
                     | Some a \<Rightarrow> Some (Inr \<lparr>IP = IP a, Port = port\<rparr>, w1))))
      else
        (case sendCommand w ''PASV'' of
           None \<Rightarrow> None
         | Some ((reply, Some err), w1) \<Rightarrow> Some (Inl err, w1)
         | Some ((reply, None), w1) \<Rightarrow>
             if Code reply \<noteq> CodePassive then Some (Inl (ReplyError reply), w1)
             else
               (case parsePasvReply (Msg reply) of
                  None \<Rightarrow> None
                | Some res \<Rightarrow> Some (res, w1))))"

text \<open>\<^verbatim>\<open>net.DialTCP\<close>: the new socket is numbered by its place in the log of dials.\<close>

definition DialTCP :: "world \<Rightarrow> TCPAddr \<Rightarrow> (error + nat) \<times> world" where
  "DialTCP w addr =
     (case dscript w of
        Some e # rest \<Rightarrow> (Inl e, w\<lparr>dscript := rest\<rparr>)
      | None # rest \<Rightarrow>
          (Inr (length (dialled w)), w\<lparr>dialled := dialled w @ [addr], dscript := rest\<rparr>)
      | [] \<Rightarrow> (Inr (length (dialled w)), w\<lparr>dialled := dialled w @ [addr]\<rparr>))"

definition openPassive :: "world \<Rightarrow> ((error + nat) \<times> world) option" where
  "openPassive w =
     (case obtainPassiveAddress w of
        None \<Rightarrow> None
      | Some (Inl err, w1) \<Rightarrow> Some (Inl err, w1)
      | Some (Inr addr, w1) \<Rightarrow> Some (DialTCP w1 addr))"

section \<open>Transfers (client.go)\<close>

text \<open>\<^verbatim>\<open>Close\<close> of a data socket: the call is logged, its outcome is the script's.\<close>

definition CloseSocket :: "world \<Rightarrow> nat \<Rightarrow> error option \<times> world" where
  "CloseSocket w sock =
     (case cscript w of
        e # rest \<Rightarrow> (e, w\<lparr>closeCalls := closeCalls w @ [sock], cscript := rest\<rparr>)
      | [] \<Rightarrow> (None, w\<lparr>closeCalls := closeCalls w @ [sock]\<rparr>))"

text \<open>
  \<^verbatim>\<open>type transferConn struct { io.ReadWriteCloser; client *Client }\<close>: the data socket; the
  client it points back to is the world.
\<close>

datatype transferConn = TransferConn (ReadWriteCloser: nat)

definition transferConn_Close :: "world \<Rightarrow> transferConn \<Rightarrow> (error option \<times> world) option" where
  "transferConn_Close w conn =
     (case CloseSocket w (ReadWriteCloser conn) of
        (Some err, w1) \<Rightarrow> Some (Some err, w1)
      | (None, w1) \<Rightarrow>
          (case response w1 of
             None \<Rightarrow> None
           | Some ((reply, Some err), w2) \<Rightarrow> Some (Some err, w2)
           | Some ((reply, None), w2) \<Rightarrow>
               if \<not> PositiveComplete (Code reply) then Some (Some (ReplyError reply), w2)
               else Some (None, w2)))"

text \<open>
  The function deferred by \<^verbatim>\<open>transfer\<close> once the data connection is open.  It runs when
  \<^verbatim>\<open>transfer\<close> returns, after the results are set, and closes the socket if the error
  result is not nil; what that \<^verbatim>\<open>Close\<close> returns is dropped.
\<close>

definition transfer_deferred :: "nat \<Rightarrow> (error + transferConn) \<Rightarrow> world \<Rightarrow> world" where
  "transfer_deferred conn res w =
     (case res of
        Inl err \<Rightarrow> snd (CloseSocket w conn)
      | Inr c \<Rightarrow> w)"

definition transfer ::
  "world \<Rightarrow> string \<Rightarrow> string \<Rightarrow> ((error + transferConn) \<times> world) option" where
  "transfer w command dataType =
     (case sendCommand w (''TYPE '' @ dataType) of
        None \<Rightarrow> None
      | Some ((reply, Some err), w1) \<Rightarrow> Some (Inl err, w1)
      | Some ((reply, None), w1) \<Rightarrow>
          if \<not> PositiveComplete (Code reply) then Some (Inl (ReplyError reply), w1)
          else
            (case openPassive w1 of
               None \<Rightarrow> None
             | Some (Inl err, w2) \<Rightarrow> Some (Inl err, w2)
             | Some (Inr conn, w2) \<Rightarrow>
                 (case sendCommand w2 command of
                    None \<Rightarrow> None
                  | Some ((reply, Some err), w3) \<Rightarrow>
                      Some (Inl err, transfer_deferred conn (Inl err) w3)
                  | Some ((reply, None), w3) \<Rightarrow>
                      if \<not> Positive (Code reply)
                      then Some (Inl (ReplyError reply),
                                 transfer_deferred conn (Inl (ReplyError reply)) w3)
                      else Some (Inr (TransferConn conn),
                                 transfer_deferred conn (Inr (TransferConn conn)) w3))))"

definition Text :: "world \<Rightarrow> string \<Rightarrow> ((error + transferConn) \<times> world) option" where
  "Text w command = transfer w command ''A''"

definition Binary :: "world \<Rightarrow> string \<Rightarrow> ((error + transferConn) \<times> world) option" where
  "Binary w command = transfer w command ''I''"

section \<open>Notions the properties are stated with\<close>

text \<open>A world in which nothing has happened yet and nothing is scripted to fail.\<close>

definition idle :: world where
  "idle = \<lparr>inbox = [], outbox = [], wscript = [],
            remoteAddr = TCPAddrOf \<lparr>IP = [192, 0, 2, 1], Port = 21\<rparr>,
            dialled = [], dscript = [], closeCalls = [], cscript = []\<rparr>"

text \<open>The control connection once the server has sent the wire text \<open>s\<close> and closed.\<close>

definition served :: "string \<Rightarrow> world" where
  "served s = idle\<lparr>inbox := map Inr (textLines s)\<rparr>"

text \<open>No line of the message contains the reply's own code followed by a space.\<close>

definition codeFree :: "Reply \<Rightarrow> bool" where
  "codeFree r = list_all (\<lambda>l. \<not> Contains l (Itoa (Code r) @ '' '')) (Split (Msg r) LF)"

text \<open>The last place at which \<open>sub\<close> occurs in \<open>s\<close>.\<close>

definition lastOccurrence :: "string \<Rightarrow> string \<Rightarrow> nat \<Rightarrow> bool" where
  "lastOccurrence s sub i = (occursAt s sub i \<and> (\<forall>j>i. \<not> occursAt s sub j))"





section \<open>Properties of the reply codes\<close>

lemma sdiv_100_eq_iff:
  fixes code :: int
  assumes "0 < k"
  shows "code sdiv 100 = k \<longleftrightarrow> 100 * k \<le> code \<and> code < 100 * k + 100"
proof (cases "0 \<le> code")
  case True
  then have "code sdiv 100 = code div 100"
    by (simp add: signed_divide_int_def sgn_if)
  then show ?thesis by auto
next
  case False
  then have "code sdiv 100 = - ((- code) div 100)"
    by (simp add: signed_divide_int_def sgn_if)
  moreover from False have "0 \<le> (- code) div 100"
    by (simp add: pos_imp_zdiv_nonneg_iff)
  ultimately show ?thesis using assms False by auto
qed

text \<open>
  Claim C3.  The five classification predicates are total functions of the quotient
  \<open>code / 100\<close> (Go's truncating division): Preliminary holds exactly when the
  quotient is 1, Positive when it is 1, 2 or 3, Complete when it is 2, 4 or 5,
  PositiveComplete when it is 2 and Temporary when it is 4.  In terms of the code itself
  these are the ranges 100..199, 100..399, 200..299 together with 400..599, 200..299 and 400..499.
\<close>

theorem code_classification:
  "(Preliminary code \<longleftrightarrow> code sdiv 100 = 1) \<and>
   (Positive code \<longleftrightarrow> code sdiv 100 \<in> {1, 2, 3}) \<and>
   (Complete code \<longleftrightarrow> code sdiv 100 \<in> {2, 4, 5}) \<and>
   (PositiveComplete code \<longleftrightarrow> code sdiv 100 = 2) \<and>
   (Temporary code \<longleftrightarrow> code sdiv 100 = 4) \<and>
   (Preliminary code \<longleftrightarrow> 100 \<le> code \<and> code < 200) \<and>
   (Positive code \<longleftrightarrow> 100 \<le> code \<and> code < 400) \<and>
   (Complete code \<longleftrightarrow> (200 \<le> code \<and> code < 300) \<or> (400 \<le> code \<and> code < 600)) \<and>
   (PositiveComplete code \<longleftrightarrow> 200 \<le> code \<and> code < 300) \<and>
   (Temporary code \<longleftrightarrow> 400 \<le> code \<and> code < 500)"
  unfolding Preliminary_def Positive_def Complete_def PositiveComplete_def Temporary_def Let_def
  by (simp add: sdiv_100_eq_iff) linarith

section \<open>Properties of the library functions and of the reading loop\<close>

lemma ReadLine_Inr:
  "inbox w = Inr l # rest \<Longrightarrow> ReadLine w = ((l, None), w\<lparr>inbox := rest\<rparr>)"
  by (simp add: ReadLine_def)

lemma ReadLine_Inl:
  "inbox w = Inl e # rest \<Longrightarrow> ReadLine w = (([], Some e), w\<lparr>inbox := rest\<rparr>)"
  by (simp add: ReadLine_def)

lemma ReadLine_Nil:
  "inbox w = [] \<Longrightarrow> ReadLine w = (([], Some EOF), w)"
  by (simp add: ReadLine_def)

lemma sliceFrom_Some:
  "0 \<le> i \<Longrightarrow> i \<le> int (length s) \<Longrightarrow> sliceFrom s i = Some (drop (nat i) s)"
  by (simp add: sliceFrom_def slice_def)

lemma sliceTo_Some:
  "0 \<le> i \<Longrightarrow> i \<le> int (length s) \<Longrightarrow> sliceTo s i = Some (take (nat i) s)"
  by (simp add: sliceTo_def slice_def)

lemma index_Some:
  "0 \<le> i \<Longrightarrow> i < int (length s) \<Longrightarrow> index s i = Some (s ! nat i)"
  by (simp add: index_def)

lemma HasPrefix_append [simp]: "HasPrefix (p @ s) p"
  by (simp add: HasPrefix_def)

lemma readLoop_terminator:
  assumes "inbox w = map Inr body @ Inr t # later"
    and "\<forall>l\<in>set body. \<not> HasPrefix l p"
    and "HasPrefix t p"
  shows "readLoop p acc w = Some ((acc @ body @ [drop (length p) t], None), w\<lparr>inbox := later\<rparr>)"
  using assms
proof (induction body arbitrary: acc w)
  case Nil
  then show ?case
    by (simp add: readLoop.simps [of p acc w] ReadLine_Inr sliceFrom_Some HasPrefix_def)
next
  case (Cons l body)
  from Cons.prems have rd: "ReadLine w = ((l, None), w\<lparr>inbox := map Inr body @ Inr t # later\<rparr>)"
    by (simp add: ReadLine_Inr)
  have "readLoop p acc w = readLoop p (acc @ [l]) (w\<lparr>inbox := map Inr body @ Inr t # later\<rparr>)"
    using Cons.prems by (simp add: readLoop.simps [of p acc w] rd)
  also have "\<dots> = Some (((acc @ [l]) @ body @ [drop (length p) t], None),
                 w\<lparr>inbox := map Inr body @ Inr t # later\<rparr>\<lparr>inbox := later\<rparr>)"
    using Cons.prems by (intro Cons.IH) simp_all
  finally show ?case by simp
qed

lemma readLoop_no_panic: "readLoop p acc w \<noteq> None"
proof (induction p acc w rule: readLoop.induct)
  case (1 endPrefix lines w)
  show ?case
  proof (cases "ReadLine w")
    case (Pair a w')
    obtain line err where a: "a = (line, err)" by (cases a)
    show ?thesis
    proof (cases err)
      case None
      with 1 Pair a show ?thesis
        by (simp add: readLoop.simps [of endPrefix lines w] sliceFrom_Some HasPrefix_def)
    next
      case (Some e)
      with Pair a show ?thesis by (simp add: readLoop.simps [of endPrefix lines w])
    qed
  qed
qed

lemma response_no_panic: "response w \<noteq> None"
  unfolding response_def
  by (auto simp: sliceTo_Some sliceFrom_Some index_Some readLoop_no_panic Let_def
      split: prod.splits option.splits)

lemma digitChar_isDigit: "d < 10 \<Longrightarrow> isDigit (digitChar d)"
proof -
  have "\<forall>d<10. isDigit (digitChar d)"
    by (simp add: eval_nat_numeral All_less_Suc digitChar_def isDigit_def)
  then show "d < 10 \<Longrightarrow> isDigit (digitChar d)" by simp
qed

lemma digitVal_digitChar: "d < 10 \<Longrightarrow> digitVal (digitChar d) = int d"
proof -
  have "\<forall>d<10. digitVal (digitChar d) = int d"
    by (simp add: eval_nat_numeral All_less_Suc digitChar_def digitVal_def)
  then show "d < 10 \<Longrightarrow> digitVal (digitChar d) = int d" by simp
qed

lemma decval_snoc: "decval (s @ [c]) = decval s * 10 + digitVal c"
  by (simp add: decval_def)

lemma natstr_nonempty: "natstr n \<noteq> []"
  by (subst natstr.simps) simp

lemma natstr_digits: "list_all isDigit (natstr n)"
  by (induction n rule: natstr.induct) (subst natstr.simps, simp add: digitChar_isDigit)

lemma decval_natstr: "decval (natstr n) = int n"
proof (induction n rule: natstr.induct)
  case (1 n)
  show ?case
  proof (cases "n < 10")
    case True
    then show ?thesis
      by (subst natstr.simps) (simp add: decval_def digitVal_digitChar)
  next
    case False
    then have "decval (natstr n) = decval (natstr (n div 10)) * 10 + digitVal (digitChar (n mod 10))"
      by (subst natstr.simps) (simp add: decval_snoc)
    also have "\<dots> = int (n div 10) * 10 + int (n mod 10)"
      using 1 False by (simp add: digitVal_digitChar)
    also have "\<dots> = int n"
      by (simp add: zdiv_int zmod_int)
    finally show ?thesis .
  qed
qed

lemma Atoi_digits:
  assumes "s \<noteq> []" and "list_all isDigit s"
  shows "Atoi s = (if 2 ^ 63 \<le> decval s then (2 ^ 63 - 1, Some (NumErrorRange s)) else (decval s, None))"
proof -
  from assms have "isDigit (hd s)" by (cases s) simp_all
  then have "hd s \<noteq> CHR ''-''" and "hd s \<noteq> CHR ''+''"
    by (auto simp: isDigit_def)
  with assms show ?thesis by (simp add: Atoi_def)
qed

lemma Atoi_natstr: "int n < 2 ^ 63 \<Longrightarrow> Atoi (natstr n) = (int n, None)"
  by (simp add: Atoi_digits natstr_nonempty natstr_digits decval_natstr)

lemma length_natstr3:
  assumes "100 \<le> n" and "n \<le> 999"
  shows "length (natstr n) = 3"
proof -
  from assms have h: "n div 10 div 10 < 10" "\<not> n div 10 < 10" "\<not> n < 10"
    by arith+
  have "natstr (n div 10 div 10) = [digitChar (n div 10 div 10)]"
    using h by (subst natstr.simps) simp
  moreover have "natstr (n div 10) = natstr (n div 10 div 10) @ [digitChar (n div 10 mod 10)]"
    using h by (subst natstr.simps) simp
  moreover have "natstr n = natstr (n div 10) @ [digitChar (n mod 10)]"
    using h by (subst natstr.simps) simp
  ultimately show ?thesis by simp
qed

lemma Itoa_code3:
  assumes "100 \<le> code" and "code \<le> 999"
  shows "length (Itoa code) = 3" and "Atoi (Itoa code) = (code, None)"
proof -
  from assms have n: "100 \<le> nat code" "nat code \<le> 999" by simp_all
  from assms show "length (Itoa code) = 3"
    using length_natstr3 [OF n] by (simp add: Itoa_def)
  from assms show "Atoi (Itoa code) = (code, None)"
    using Atoi_natstr [of "nat code"] by (simp add: Itoa_def)
qed

lemma response_multi:
  assumes "100 \<le> code" and "code \<le> 999"
    and "inbox w = Inr (Itoa code @ ''-'' @ rest) # map Inr body @ Inr (Itoa code @ '' '' @ fin) # later"
    and "\<forall>l\<in>set body. \<not> HasPrefix l (Itoa code @ '' '')"
  shows "response w = Some ((\<lparr>Code = code, Msg = Join (rest # body @ [fin]) [LF]\<rparr>, None), w\<lparr>inbox := later\<rparr>)"
proof -
  define line where "line = Itoa code @ ''-'' @ rest"
  define p where "p = Itoa code @ '' ''"
  define w1 where "w1 = w\<lparr>inbox := map Inr body @ Inr (p @ fin) # later\<rparr>"
  note len = Itoa_code3(1) [OF assms(1,2)]
  have rd: "ReadLine w = ((line, None), w1)"
    using assms(3) by (simp add: ReadLine_Inr line_def w1_def p_def)
  have l4: "\<not> length line < 4"
    using len by (simp add: line_def)
  have a: "sliceTo line 3 = Some (Itoa code)"
    using len by (simp add: sliceTo_Some line_def)
  have b: "index line 3 = Some (CHR ''-'')"
    using len by (simp add: index_def nth_append line_def)
  have c: "sliceFrom line 4 = Some rest"
    using len by (simp add: sliceFrom_Some line_def)
  have "readLoop p [rest] w1 = Some (([rest] @ body @ [drop (length p) (p @ fin)], None), w1\<lparr>inbox := later\<rparr>)"
    using assms(4) by (intro readLoop_terminator) (simp_all add: w1_def, simp add: p_def)
  then have d: "readLoop p [rest] w1 = Some ((rest # body @ [fin], None), w\<lparr>inbox := later\<rparr>)"
    by (simp add: w1_def)
  show ?thesis
    unfolding response_def rd
    by (simp add: l4 a b c d [unfolded p_def] Itoa_code3(2) [OF assms(1,2)] del: Join.simps)
qed


lemma readLoop_success:
  assumes "inbox w = map Inr body @ Inr t # later" and "HasPrefix t p"
  shows "\<exists>ls w'. readLoop p acc w = Some ((ls, None), w')"
  using assms
proof (induction body arbitrary: acc w)
  case Nil
  then show ?case
    by (simp add: readLoop.simps [of p acc w] ReadLine_Inr sliceFrom_Some HasPrefix_def)
next
  case (Cons l body)
  let ?w1 = "w\<lparr>inbox := map Inr body @ Inr t # later\<rparr>"
  from Cons.prems have rd: "ReadLine w = ((l, None), ?w1)"
    by (simp add: ReadLine_Inr)
  show ?case
  proof (cases "HasPrefix l p")
    case True
    then show ?thesis
      by (simp add: readLoop.simps [of p acc w] rd sliceFrom_Some HasPrefix_def)
  next
    case False
    have "\<exists>ls w'. readLoop p (acc @ [l]) ?w1 = Some ((ls, None), w')"
      using Cons.prems by (intro Cons.IH) simp_all
    with False show ?thesis
      by (simp add: readLoop.simps [of p acc w] rd)
  qed
qed

lemma readLoop_error:
  "readLoop p acc w = Some ((ls, Some e), w') \<Longrightarrow> e = EOF \<or> Inl e \<in> set (inbox w)"
proof (induction p acc w rule: readLoop.induct)
  case (1 endPrefix lines w)
  show ?case
  proof (cases "inbox w")
    case Nil
    with "1.prems" show ?thesis
      by (simp add: readLoop.simps [of endPrefix lines w] ReadLine_Nil)
  next
    case (Cons x rest)
    show ?thesis
    proof (cases x)
      case (Inl e')
      with Cons "1.prems" show ?thesis
        by (simp add: readLoop.simps [of endPrefix lines w] ReadLine_Inl)
    next
      case (Inr l)
      with Cons have rd: "ReadLine w = ((l, None), w\<lparr>inbox := rest\<rparr>)"
        by (simp add: ReadLine_Inr)
      show ?thesis
      proof (cases "HasPrefix l endPrefix")
        case True
        with "1.prems" show ?thesis
          by (simp add: readLoop.simps [of endPrefix lines w] rd sliceFrom_Some HasPrefix_def)
      next
        case False
        with "1.prems" have "readLoop endPrefix (lines @ [l]) (w\<lparr>inbox := rest\<rparr>) = Some ((ls, Some e), w')"
          by (simp add: readLoop.simps [of endPrefix lines w] rd)
        with "1.IH" [OF rd [symmetric] refl refl False] have "e = EOF \<or> Inl e \<in> set rest"
          by simp
        with Cons show ?thesis by auto
      qed
    qed
  qed
qed

section \<open>Properties of the reply reader\<close>

text \<open>
  Claim C2.  Multi-line replies: when the first line is a three-digit code, a dash and a
  rest, the rest is the first message line; of the lines that follow, the first one that
  begins with the code and a space ends the reply and gives its remainder as the last
  message line, whatever follows it; the lines before it are taken as they are, also when
  they begin with another number; the message is the lines joined by single line feeds.
\<close>

theorem multi_line_reply:
  assumes "100 \<le> code" and "code \<le> 999"
    and "inbox w = Inr (Itoa code @ ''-'' @ rest) # map Inr body @ Inr (Itoa code @ '' '' @ fin) # later"
    and "\<forall>l\<in>set body. \<not> HasPrefix l (Itoa code @ '' '')"
  shows "response w =
    Some ((\<lparr>Code = code, Msg = Join (rest # body @ [fin]) [LF]\<rparr>, None), w\<lparr>inbox := later\<rparr>)"
  using assms by (rule response_multi)

theorem multi_line_reply_witness:
  "response (served (''123-First line'' @ CRLF @ ''Second line'' @ CRLF
        @ ''  234 A line beginning with numbers'' @ CRLF @ ''123 The last line''))
   = Some ((\<lparr>Code = 123, Msg = ''First line'' @ [LF] @ ''Second line'' @ [LF]
        @ ''  234 A line beginning with numbers'' @ [LF] @ ''The last line''\<rparr>, None), idle)"
  using multi_line_reply [of 123 "served (''123-First line'' @ CRLF @ ''Second line'' @ CRLF
        @ ''  234 A line beginning with numbers'' @ CRLF @ ''123 The last line'')" "''First line''"
        "[''Second line'', ''  234 A line beginning with numbers'']" "''The last line''" "[]"]
  by (simp add: served_def textLines_def CRLF_def CR_def LF_def dropCR_def Itoa_def natstr.simps
      digitChar_def HasPrefix_def idle_def)

text \<open>
  Claim C8.  A first line shorter than four characters is rejected with the error
  "Short response line in FTP": the reader returns (it does not panic on a slice or an
  index out of range), and what it returns carries an error.
\<close>

theorem short_line_rejected:
  assumes "inbox w = Inr line # rest" and "length line < 4"
  shows "response w =
    Some ((zeroReply, Some (ErrorString ''Short response line in FTP'')), w\<lparr>inbox := rest\<rparr>)"
  using assms by (simp add: response_def ReadLine_Inr)

theorem short_line_rejected_witness:
  "length ''220'' < 4 \<and>
   response (idle\<lparr>inbox := [Inr ''220'']\<rparr>) =
     Some ((zeroReply, Some (ErrorString ''Short response line in FTP'')), idle)"
  using short_line_rejected [of "idle\<lparr>inbox := [Inr ''220'']\<rparr>" "''220''" "[]"]
  by (simp add: idle_def)

text \<open>
  Claim C9 says that a line of at least four characters whose first three characters are
  not all decimal digits is rejected.  \<^verbatim>\<open>strconv.Atoi\<close> takes a sign, so the line
  \<^verbatim>\<open>-12 hello\<close> is read as a reply with the code -12 and no error.
\<close>

theorem signed_prefix_accepted:
  "4 \<le> length ''-12 hello'' \<and> \<not> list_all isDigit (take 3 ''-12 hello'') \<and>
   response (idle\<lparr>inbox := [Inr ''-12 hello'']\<rparr>) =
     Some ((\<lparr>Code = - 12, Msg = ''hello''\<rparr>, None), idle)"
  by (simp add: response_def ReadLine_def sliceTo_def sliceFrom_def slice_def index_def Atoi_def
      isDigit_def decval_def digitVal_def idle_def)

lemma response_first_line:
  assumes "inbox w = Inr line # rest" and "4 \<le> length line"
  shows "response w =
     (case Atoi (take 3 line) of
        (code, Some err) \<Rightarrow> Some ((zeroReply, Some err), w\<lparr>inbox := rest\<rparr>)
      | (code, None) \<Rightarrow>
          if line ! 3 = CHR ''-'' then
            (case readLoop (Itoa code @ '' '') [drop 4 line] (w\<lparr>inbox := rest\<rparr>) of
               None \<Rightarrow> None
             | Some ((lines, err), w2) \<Rightarrow> Some ((\<lparr>Code = code, Msg = Join lines [LF]\<rparr>, err), w2))
          else if line ! 3 = CHR '' '' then
            Some ((\<lparr>Code = code, Msg = drop 4 line\<rparr>, None), w\<lparr>inbox := rest\<rparr>)
          else Some ((zeroReply, Some (ErrorString ''Expected space after FTP response code'')),
                     w\<lparr>inbox := rest\<rparr>))"
  using assms
  by (simp add: response_def ReadLine_Inr sliceTo_Some sliceFrom_Some index_Some
      split: prod.splits option.splits)

text \<open>
  Claim C10.  The reader does not check the range of the code.  A first line of at least
  four characters whose first three characters \<^verbatim>\<open>strconv.Atoi\<close> parses and whose fourth is
  a space gives a reply with the parsed code, whatever it is; with a dash as the fourth
  character it gives one as soon as a line with the end prefix follows.  An error comes
  only from a line shorter than four characters, a prefix that does not parse, a fourth
  character that is neither space nor dash or, within a multi-line reply, from the line
  source itself.
\<close>

theorem no_code_range_validation:
  assumes "inbox w = Inr line # rest"
  shows "(4 \<le> length line \<and> Atoi (take 3 line) = (code, None) \<and> line ! 3 = CHR '' '' \<longrightarrow>
           response w = Some ((\<lparr>Code = code, Msg = drop 4 line\<rparr>, None), w\<lparr>inbox := rest\<rparr>)) \<and>
         (4 \<le> length line \<and> Atoi (take 3 line) = (code, None) \<and> line ! 3 = CHR ''-'' \<and>
            rest = map Inr body @ Inr t # later \<and> HasPrefix t (Itoa code @ '' '') \<longrightarrow>
           (\<exists>msg w'. response w = Some ((\<lparr>Code = code, Msg = msg\<rparr>, None), w'))) \<and>
         (response w = Some ((r, Some e), w') \<longrightarrow>
            length line < 4 \<or> snd (Atoi (take 3 line)) \<noteq> None \<or>
            (line ! 3 \<noteq> CHR '' '' \<and> line ! 3 \<noteq> CHR ''-'') \<or>
            (line ! 3 = CHR ''-'' \<and> (e = EOF \<or> Inl e \<in> set rest)))"
proof (intro conjI impI)
  assume "4 \<le> length line \<and> Atoi (take 3 line) = (code, None) \<and> line ! 3 = CHR '' ''"
  then show "response w = Some ((\<lparr>Code = code, Msg = drop 4 line\<rparr>, None), w\<lparr>inbox := rest\<rparr>)"
    using assms by (simp add: response_first_line)
next
  assume a: "4 \<le> length line \<and> Atoi (take 3 line) = (code, None) \<and> line ! 3 = CHR ''-'' \<and>
            rest = map Inr body @ Inr t # later \<and> HasPrefix t (Itoa code @ '' '')"
  then have "inbox (w\<lparr>inbox := rest\<rparr>) = map Inr body @ Inr t # later" by simp
  from readLoop_success [OF this, of "Itoa code @ '' ''" "[drop 4 line]"] a
  obtain ls w2 where "readLoop (Itoa code @ '' '') [drop 4 line] (w\<lparr>inbox := rest\<rparr>) = Some ((ls, None), w2)"
    by blast
  with a show "\<exists>msg w'. response w = Some ((\<lparr>Code = code, Msg = msg\<rparr>, None), w')"
    using assms by (simp add: response_first_line)
next
  assume f: "response w = Some ((r, Some e), w')"
  show "length line < 4 \<or> snd (Atoi (take 3 line)) \<noteq> None \<or>
            (line ! 3 \<noteq> CHR '' '' \<and> line ! 3 \<noteq> CHR ''-'') \<or>
            (line ! 3 = CHR ''-'' \<and> (e = EOF \<or> Inl e \<in> set rest))"
  proof (cases "4 \<le> length line \<and> snd (Atoi (take 3 line)) = None \<and> line ! 3 = CHR ''-''")
    case True
    then obtain code' where c: "Atoi (take 3 line) = (code', None)"
      by (cases "Atoi (take 3 line)") simp
    from f True c assms obtain ls where
      "readLoop (Itoa code' @ '' '') [drop 4 line] (w\<lparr>inbox := rest\<rparr>) = Some ((ls, Some e), w')"
      by (auto simp: response_first_line split: option.splits prod.splits)
    from readLoop_error [OF this] True show ?thesis by simp
  next
    case False
    with f assms show ?thesis
      by (cases "Atoi (take 3 line)") (auto simp: response_first_line split: option.splits if_splits)
  qed
qed

theorem no_code_range_validation_witness:
  "response (idle\<lparr>inbox := [Inr ''099 '']\<rparr>) = Some ((\<lparr>Code = 99, Msg = []\<rparr>, None), idle) \<and>
   response (idle\<lparr>inbox := [Inr ''999 '']\<rparr>) = Some ((\<lparr>Code = 999, Msg = []\<rparr>, None), idle) \<and>
   (\<exists>msg w'. response (idle\<lparr>inbox := [Inr ''099-a'', Inr ''b'', Inr ''99  c'']\<rparr>) =
       Some ((\<lparr>Code = 99, Msg = msg\<rparr>, None), w')) \<and>
   response (idle\<lparr>inbox := [Inr ''700-a'']\<rparr>) = Some ((\<lparr>Code = 700, Msg = ''a''\<rparr>, Some EOF), idle)"
proof -
  have at: "Atoi ''099'' = (99, None)" "Atoi ''999'' = (999, None)"
    by (simp_all add: Atoi_def isDigit_def decval_def digitVal_def)
  have i99: "Itoa 99 = ''99''"
    by (simp add: Itoa_def natstr.simps digitChar_def)
  have 1: "response (idle\<lparr>inbox := [Inr ''099 '']\<rparr>) = Some ((\<lparr>Code = 99, Msg = []\<rparr>, None), idle)"
    using no_code_range_validation [of "idle\<lparr>inbox := [Inr ''099 '']\<rparr>" "''099 ''" "[]" 99]
    by (simp add: at idle_def)
  have 2: "response (idle\<lparr>inbox := [Inr ''999 '']\<rparr>) = Some ((\<lparr>Code = 999, Msg = []\<rparr>, None), idle)"
    using no_code_range_validation [of "idle\<lparr>inbox := [Inr ''999 '']\<rparr>" "''999 ''" "[]" 999]
    by (simp add: at idle_def)
  have 3: "\<exists>msg w'. response (idle\<lparr>inbox := [Inr ''099-a'', Inr ''b'', Inr ''99  c'']\<rparr>) =
       Some ((\<lparr>Code = 99, Msg = msg\<rparr>, None), w')"
    using no_code_range_validation [of "idle\<lparr>inbox := [Inr ''099-a'', Inr ''b'', Inr ''99  c'']\<rparr>"
        "''099-a''" "[Inr ''b'', Inr ''99  c'']" 99 "[''b'']" "''99  c''" "[]"]
    by (simp add: at i99 HasPrefix_def)
  have 4: "response (idle\<lparr>inbox := [Inr ''700-a'']\<rparr>) = Some ((\<lparr>Code = 700, Msg = ''a''\<rparr>, Some EOF), idle)"
    by (simp add: response_first_line [of _ "''700-a''" "[]"] Atoi_def isDigit_def decval_def digitVal_def
        readLoop.simps ReadLine_def idle_def)
  from 1 2 3 4 show ?thesis by blast
qed

lemma Split_nonempty: "Split s sep \<noteq> []"
  by (induction s) (auto split: list.splits)

lemma Split_no_sep: "l \<in> set (Split s sep) \<Longrightarrow> sep \<notin> set l"
proof (induction s arbitrary: l)
  case Nil
  then show ?case by simp
next
  case (Cons c cs)
  then show ?case
    by (cases "Split cs sep") (auto split: if_splits)
qed

lemma Split_absent: "sep \<notin> set s \<Longrightarrow> Split s sep = [s]"
  by (induction s) auto

lemma Split_at_sep: "sep \<notin> set a \<Longrightarrow> Split (a @ sep # b) sep = a # Split b sep"
  by (induction a) auto

lemma Join_Cons: "ls \<noteq> [] \<Longrightarrow> Join (l # ls) sep = l @ sep @ Join ls sep"
  by (cases ls) simp_all

lemma Join_Split: "Join (Split s sep) [sep] = s"
proof (induction s)
  case Nil
  then show ?case by simp
next
  case (Cons c cs)
  show ?case
  proof (cases "c = sep")
    case True
    with Cons show ?thesis by (simp add: Join_Cons Split_nonempty)
  next
    case False
    obtain l ls where sp: "Split cs sep = l # ls"
      using Split_nonempty [of cs sep] by (cases "Split cs sep") auto
    with Cons False show ?thesis by (cases ls) simp_all
  qed
qed

lemma Split_Join_CRLF:
  assumes "ls \<noteq> []" and "\<forall>l\<in>set ls. LF \<notin> set l"
  shows "Split (Join ls CRLF) LF = map (\<lambda>l. l @ [CR]) (butlast ls) @ [last ls]"
  using assms
proof (induction ls)
  case Nil
  then show ?case by simp
next
  case (Cons l ls)
  show ?case
  proof (cases ls)
    case Nil
    with Cons.prems show ?thesis by (simp add: Split_absent)
  next
    case (Cons l' ls')
    have cr: "CR \<noteq> LF" by (simp add: CR_def LF_def)
    from Cons.prems cr have "LF \<notin> set (l @ [CR])" by simp
    from Split_at_sep [OF this, of "Join ls CRLF"]
    have "Split (Join (l # ls) CRLF) LF = (l @ [CR]) # Split (Join ls CRLF) LF"
      using Cons by (simp add: CRLF_def)
    with Cons.IH Cons.prems Cons show ?thesis by simp
  qed
qed

lemma dropCR_snoc: "dropCR (l @ [CR]) = l"
  by (simp add: dropCR_def)

lemma readLines_stripped:
  "z \<noteq> [] \<Longrightarrow> readLines (map (\<lambda>l. l @ [CR]) xs @ [z]) = xs @ [z]"
proof (induction xs)
  case Nil
  then show ?case by simp
next
  case (Cons x xs)
  then obtain y ys where "map (\<lambda>l. l @ [CR]) xs @ [z] = y # ys"
    by (cases "map (\<lambda>l. l @ [CR]) xs @ [z]") auto
  with Cons show ?case by (simp add: dropCR_snoc)
qed

lemma textLines_Join:
  assumes "ls \<noteq> []" and "\<forall>l\<in>set ls. LF \<notin> set l" and "last ls \<noteq> []"
  shows "textLines (Join ls CRLF) = ls"
  using assms by (simp add: textLines_def Split_Join_CRLF readLines_stripped)


lemma natstr_no_LF: "LF \<notin> set (natstr n)"
proof -
  have "\<not> isDigit LF" by (simp add: isDigit_def LF_def)
  moreover have "\<forall>c\<in>set (natstr n). isDigit c"
    using natstr_digits [of n] by (simp add: list_all_iff)
  ultimately show ?thesis by blast
qed

lemma Itoa_no_LF: "LF \<notin> set (Itoa i)"
proof -
  have "CHR ''-'' \<noteq> LF" by (simp add: LF_def)
  then show ?thesis using natstr_no_LF by (simp add: Itoa_def)
qed

lemma idle_inbox: "idle\<lparr>inbox := []\<rparr> = idle"
  by (simp add: idle_def)

lemma HasPrefix_Contains: "HasPrefix l p \<Longrightarrow> Contains l p"
  by (auto simp: Contains_def occursAt_def list_ex_iff intro: bexI [of _ 0])

lemma response_single:
  assumes "100 \<le> code" and "code \<le> 999"
    and "inbox w = Inr (Itoa code @ '' '' @ msg) # rest"
  shows "response w = Some ((\<lparr>Code = code, Msg = msg\<rparr>, None), w\<lparr>inbox := rest\<rparr>)"
proof -
  define line where "line = Itoa code @ '' '' @ msg"
  note len = Itoa_code3(1) [OF assms(1,2)]
  have "4 \<le> length line" "take 3 line = Itoa code" "line ! 3 = CHR '' ''" "drop 4 line = msg"
    using len by (simp_all add: line_def nth_append)
  moreover have "inbox w = Inr line # rest"
    using assms(3) by (simp add: line_def)
  ultimately show ?thesis
    by (simp add: response_first_line Itoa_code3(2) [OF assms(1,2)])
qed

lemma String_single:
  assumes "LF \<notin> set (Msg r)"
  shows "String r = Itoa (Code r) @ '' '' @ Msg r"
  using assms by (simp add: String_def Split_absent)

lemma String_multi:
  assumes "Split (Msg r) LF = l0 # mid @ [ln]"
  shows "String r = Join ((Itoa (Code r) @ ''-'' @ l0) # mid @ [Itoa (Code r) @ '' '' @ ln]) CRLF"
  using assms by (simp add: String_def Let_def nth_append del: Join.simps)

lemma list_shape:
  assumes "1 < length xs"
  obtains x mid z where "xs = x # mid @ [z]"
proof -
  from assms obtain x ys where xs: "xs = x # ys" and "ys \<noteq> []"
    by (cases xs) auto
  then have "ys = butlast ys @ [last ys]" by simp
  with xs that show thesis by metis
qed

text \<open>
  Claim C1.  Round trip: a reply code has three digits (the codes of the reply model, 100
  to 599, lie within the bound 100 to 999 assumed here).  For a reply with such a code
  whose message lines do not contain the code followed by a space, reading the lines of
  the rendered reply gives the reply back, with the same code, the same message and no
  error.
\<close>

theorem render_read_roundtrip:
  assumes "100 \<le> Code r" and "Code r \<le> 999" and "codeFree r"
  shows "response (served (String r)) = Some ((r, None), idle)"
proof (cases "1 < length (Split (Msg r) LF)")
  case False
  have "Split (Msg r) LF \<noteq> []" by (rule Split_nonempty)
  with False obtain l where l: "Split (Msg r) LF = [l]"
    by (cases "Split (Msg r) LF") auto
  have "Join (Split (Msg r) LF) [LF] = Msg r" by (rule Join_Split)
  with l have "l = Msg r" by simp
  with l Split_no_sep [of l "Msg r" LF] have nolf: "LF \<notin> set (Msg r)" by simp
  then have "LF \<notin> set (Itoa (Code r) @ '' '' @ Msg r)"
    by (simp add: Itoa_no_LF) (simp add: LF_def)
  then have "textLines (String r) = [Itoa (Code r) @ '' '' @ Msg r]"
    using nolf by (simp add: String_single textLines_def Split_absent)
  then have "inbox (served (String r)) = Inr (Itoa (Code r) @ '' '' @ Msg r) # []"
    by (simp add: served_def)
  from response_single [OF assms(1,2) this] show ?thesis
    by (simp add: served_def idle_inbox)
next
  case True
  then obtain l0 mid ln where sp: "Split (Msg r) LF = l0 # mid @ [ln]"
    by (rule list_shape)
  let ?c = "Itoa (Code r)"
  let ?ls = "(?c @ ''-'' @ l0) # mid @ [?c @ '' '' @ ln]"
  have nolf: "\<forall>l\<in>set (l0 # mid @ [ln]). LF \<notin> set l"
    using Split_no_sep [of _ "Msg r" LF] sp by metis
  have "\<forall>l\<in>set ?ls. LF \<notin> set l"
    using nolf by (auto simp: Itoa_no_LF) (simp_all add: LF_def)
  then have "textLines (Join ?ls CRLF) = ?ls"
    by (intro textLines_Join) simp_all
  then have ib: "inbox (served (String r)) =
      Inr (?c @ ''-'' @ l0) # map Inr mid @ Inr (?c @ '' '' @ ln) # []"
    by (simp add: served_def String_multi [OF sp])
  have "\<forall>l\<in>set mid. \<not> Contains l (?c @ '' '')"
    using assms(3) sp by (simp add: codeFree_def list_all_iff)
  then have "\<forall>l\<in>set mid. \<not> HasPrefix l (?c @ '' '')"
    using HasPrefix_Contains by blast
  from response_multi [OF assms(1,2) ib this]
  have "response (served (String r)) =
      Some ((\<lparr>Code = Code r, Msg = Join (Split (Msg r) LF) [LF]\<rparr>, None), idle)"
    by (simp add: sp served_def idle_inbox del: Join.simps)
  then show ?thesis by (simp add: Join_Split)
qed

theorem render_read_roundtrip_witness:
  "codeFree \<lparr>Code = 230, Msg = ''Hi'' @ [LF] @ ''all''\<rparr> \<and>
   String \<lparr>Code = 230, Msg = ''Hi'' @ [LF] @ ''all''\<rparr> = ''230-Hi'' @ CRLF @ ''230 all'' \<and>
   response (served (''230-Hi'' @ CRLF @ ''230 all'')) =
     Some ((\<lparr>Code = 230, Msg = ''Hi'' @ [LF] @ ''all''\<rparr>, None), idle)"
proof -
  let ?r = "\<lparr>Code = 230, Msg = ''Hi'' @ [LF] @ ''all''\<rparr>"
  have i: "Itoa 230 = ''230''"
    by (simp add: Itoa_def natstr.simps digitChar_def)
  have cf: "codeFree ?r"
    by (simp add: codeFree_def i LF_def Contains_def occursAt_def HasPrefix_def upt_rec)
  have st: "String ?r = ''230-Hi'' @ CRLF @ ''230 all''"
    by (simp add: String_def i LF_def CRLF_def)
  from render_read_roundtrip [of ?r] cf st show ?thesis by simp
qed

section \<open>Properties of the passive address decoders\<close>

lemma last_filter_upt:
  "(case filter P (rev [0..<n]) of [] \<Rightarrow> - 1 | i # _ \<Rightarrow> int i) = int k \<longleftrightarrow>
     k < n \<and> P k \<and> (\<forall>j. k < j \<and> j < n \<longrightarrow> \<not> P j)"
proof (induction n)
  case 0
  then show ?case by simp
next
  case (Suc n)
  show ?case
  proof (cases "P n")
    case True
    then show ?thesis
      by (auto simp: less_Suc_eq)
  next
    case False
    then show ?thesis
      using Suc by (auto simp: less_Suc_eq)
  qed
qed

lemma none_filter_upt:
  "(case filter P (rev [0..<n]) of [] \<Rightarrow> - 1 | i # _ \<Rightarrow> int i) = - 1 \<longleftrightarrow> (\<forall>j<n. \<not> P j)"
  by (induction n) (auto simp: less_Suc_eq)

lemma LastIndex_eq: "LastIndex s sub = int i \<longleftrightarrow> lastOccurrence s sub i"
  unfolding LastIndex_def lastOccurrence_def last_filter_upt
  by (auto simp: occursAt_def)

lemma LastIndex_none: "LastIndex s sub = - 1 \<longleftrightarrow> \<not> Contains s sub"
  unfolding LastIndex_def Contains_def none_filter_upt
  by (auto simp: list_ex_iff less_Suc_eq)

lemma occursAt_bound: "occursAt s sub i \<Longrightarrow> i + length sub \<le> length s"
  by (auto simp: occursAt_def HasPrefix_def)


lemma ReadLine_frame: "\<exists>ib. snd (ReadLine w) = w\<lparr>inbox := ib\<rparr>"
proof (cases "inbox w")
  case Nil
  then have "snd (ReadLine w) = w\<lparr>inbox := inbox w\<rparr>" by (simp add: ReadLine_def)
  then show ?thesis ..
next
  case (Cons x rest)
  then have "snd (ReadLine w) = w\<lparr>inbox := rest\<rparr>"
    by (cases x) (simp_all add: ReadLine_def)
  then show ?thesis ..
qed

lemma readLoop_frame:
  "readLoop p acc w = Some (res, w') \<Longrightarrow> \<exists>ib. w' = w\<lparr>inbox := ib\<rparr>"
proof (induction p acc w rule: readLoop.induct)
  case (1 endPrefix lines w)
  obtain line err w1 where rd: "ReadLine w = ((line, err), w1)"
    by (cases "ReadLine w") auto
  with ReadLine_frame [of w] obtain ib1 where w1: "w1 = w\<lparr>inbox := ib1\<rparr>" by auto
  show ?case
  proof (cases "err = None \<and> \<not> HasPrefix line endPrefix")
    case True
    with "1.prems" rd have "readLoop endPrefix (lines @ [line]) w1 = Some (res, w')"
      by (simp add: readLoop.simps [of endPrefix lines w])
    with "1.IH" [OF rd [symmetric] refl] True rd obtain ib where "w' = w1\<lparr>inbox := ib\<rparr>"
      by auto
    with w1 have "w' = w\<lparr>inbox := ib\<rparr>" by simp
    then show ?thesis ..
  next
    case False
    with "1.prems" rd have "w' = w1"
      by (auto simp: readLoop.simps [of endPrefix lines w] split: option.splits if_splits)
    with w1 show ?thesis by blast
  qed
qed

lemma response_frame:
  assumes "response w = Some (res, w')"
  shows "\<exists>ib. w' = w\<lparr>inbox := ib\<rparr>"
proof -
  obtain line err w1 where rd: "ReadLine w = ((line, err), w1)"
    by (cases "ReadLine w") auto
  with ReadLine_frame [of w] obtain ib1 where w1: "w1 = w\<lparr>inbox := ib1\<rparr>" by auto
  from assms rd have "w' = w1 \<or> (\<exists>p acc r. readLoop p acc w1 = Some (r, w'))"
    unfolding response_def
    by (auto simp: Let_def split: option.splits if_splits prod.splits)
  then show ?thesis
  proof
    assume "w' = w1"
    with w1 show ?thesis by blast
  next
    assume "\<exists>p acc r. readLoop p acc w1 = Some (r, w')"
    then obtain ib where "w' = w1\<lparr>inbox := ib\<rparr>"
      using readLoop_frame by blast
    with w1 have "w' = w\<lparr>inbox := ib\<rparr>" by simp
    then show ?thesis ..
  qed
qed

text \<open>
  EPSV decoding: without the start delimiter or without the end delimiter, and when the
  last end delimiter does not lie beyond the last start delimiter, the reply is rejected
  with "EPSV reply provided no port"; otherwise the port is what \<^verbatim>\<open>strconv.Atoi\<close> makes
  of the text between the last start delimiter and the last end delimiter, which for a run
  of digits is its decimal value.
\<close>

lemma parseEpsvReply_between:
  assumes "lastOccurrence msg epsvStart i" and "lastOccurrence msg epsvEnd j"
    and "i + length epsvStart < j"
  shows "parseEpsvReply msg =
           Some (Atoi (take (j - (i + length epsvStart)) (drop (i + length epsvStart) msg)))"
proof -
  from assms have li: "LastIndex msg epsvStart = int i" "LastIndex msg epsvEnd = int j"
    by (simp_all add: LastIndex_eq)
  from assms have "j + length epsvEnd \<le> length msg"
    by (simp add: lastOccurrence_def occursAt_bound)
  then have "slice msg (int i + int (length epsvStart)) (int j) =
      Some (take (j - (i + length epsvStart)) (drop (i + length epsvStart) msg))"
    using assms by (simp add: slice_def nat_add_distrib nat_diff_distrib')
  with assms li show ?thesis
    by (simp add: parseEpsvReply_def Let_def)
qed

lemma parseEpsvReply_decoding:
  "(\<not> Contains msg epsvStart \<or> \<not> Contains msg epsvEnd \<longrightarrow>
      parseEpsvReply msg = Some (0, Some (ErrorString ''EPSV reply provided no port''))) \<and>
   (lastOccurrence msg epsvStart i \<and> lastOccurrence msg epsvEnd j \<and> j \<le> i + length epsvStart \<longrightarrow>
      parseEpsvReply msg = Some (0, Some (ErrorString ''EPSV reply provided no port''))) \<and>
   (lastOccurrence msg epsvStart i \<and> lastOccurrence msg epsvEnd j \<and> i + length epsvStart < j \<longrightarrow>
      parseEpsvReply msg =
        Some (Atoi (take (j - (i + length epsvStart)) (drop (i + length epsvStart) msg)))) \<and>
   (lastOccurrence msg epsvStart i \<and> lastOccurrence msg epsvEnd j \<and> i + length epsvStart < j \<and>
      list_all isDigit (take (j - (i + length epsvStart)) (drop (i + length epsvStart) msg)) \<and>
      decval (take (j - (i + length epsvStart)) (drop (i + length epsvStart) msg)) < 2 ^ 63 \<longrightarrow>
      parseEpsvReply msg =
        Some (decval (take (j - (i + length epsvStart)) (drop (i + length epsvStart) msg)), None))"
proof (intro conjI impI)
  assume "\<not> Contains msg epsvStart \<or> \<not> Contains msg epsvEnd"
  then have "LastIndex msg epsvStart = - 1 \<or> LastIndex msg epsvEnd = - 1"
    by (simp add: LastIndex_none)
  then show "parseEpsvReply msg = Some (0, Some (ErrorString ''EPSV reply provided no port''))"
    by (auto simp: parseEpsvReply_def Let_def)
next
  assume "lastOccurrence msg epsvStart i \<and> lastOccurrence msg epsvEnd j \<and> j \<le> i + length epsvStart"
  then have "LastIndex msg epsvStart = int i" "LastIndex msg epsvEnd = int j" "j \<le> i + length epsvStart"
    by (simp_all add: LastIndex_eq)
  then show "parseEpsvReply msg = Some (0, Some (ErrorString ''EPSV reply provided no port''))"
    by (simp add: parseEpsvReply_def Let_def)
next
  assume "lastOccurrence msg epsvStart i \<and> lastOccurrence msg epsvEnd j \<and> i + length epsvStart < j"
  then show "parseEpsvReply msg =
        Some (Atoi (take (j - (i + length epsvStart)) (drop (i + length epsvStart) msg)))"
    by (simp add: parseEpsvReply_between)
next
  let ?b = "take (j - (i + length epsvStart)) (drop (i + length epsvStart) msg)"
  assume a: "lastOccurrence msg epsvStart i \<and> lastOccurrence msg epsvEnd j \<and> i + length epsvStart < j \<and>
      list_all isDigit ?b \<and> decval ?b < 2 ^ 63"
  then have "j + length epsvEnd \<le> length msg"
    by (simp add: lastOccurrence_def occursAt_bound)
  with a have "?b \<noteq> []" by simp
  with a have "Atoi ?b = (decval ?b, None)"
    by (simp add: Atoi_digits)
  moreover from a have "parseEpsvReply msg = Some (Atoi ?b)"
    by (intro parseEpsvReply_between) simp_all
  ultimately show "parseEpsvReply msg = Some (decval ?b, None)"
    by simp
qed

lemma parseEpsvReply_examples:
  "parseEpsvReply ''Entering Extended Passive Mode. (|||1031|)'' = Some (1031, None) \<and>
   parseEpsvReply ''Entering Extended Passive Mode.'' =
     Some (0, Some (ErrorString ''EPSV reply provided no port'')) \<and>
   parseEpsvReply ''|) 1031 (|||'' = Some (0, Some (ErrorString ''EPSV reply provided no port''))"
proof -
  let ?m = "''Entering Extended Passive Mode. (|||1031|)''"
  have "LastIndex ?m epsvStart = int 32" "LastIndex ?m epsvEnd = int 40"
    by code_simp+
  then have "lastOccurrence ?m epsvStart 32" "lastOccurrence ?m epsvEnd 40"
    by (simp_all only: LastIndex_eq)
  moreover have "Atoi ''1031'' = (1031, None)"
    by (simp add: Atoi_def isDigit_def decval_def digitVal_def)
  ultimately have 1: "parseEpsvReply ?m = Some (1031, None)"
    using parseEpsvReply_decoding [of ?m 32 40] by (simp add: epsvStart_def)
  have "\<not> Contains ''Entering Extended Passive Mode.'' epsvStart"
    by code_simp
  then have 2: "parseEpsvReply ''Entering Extended Passive Mode.'' =
     Some (0, Some (ErrorString ''EPSV reply provided no port''))"
    using parseEpsvReply_decoding [of "''Entering Extended Passive Mode.''"] by simp
  have "LastIndex ''|) 1031 (|||'' epsvStart = int 8" "LastIndex ''|) 1031 (|||'' epsvEnd = int 0"
    by code_simp+
  then have "lastOccurrence ''|) 1031 (|||'' epsvStart 8" "lastOccurrence ''|) 1031 (|||'' epsvEnd 0"
    by (simp_all only: LastIndex_eq)
  then have 3: "parseEpsvReply ''|) 1031 (|||'' = Some (0, Some (ErrorString ''EPSV reply provided no port''))"
    using parseEpsvReply_decoding [of "''|) 1031 (|||''" 8 0] by simp
  from 1 2 3 show ?thesis by blast
qed

text \<open>
  The address of an EPSV negotiation.  \<^verbatim>\<open>obtainPassiveAddress\<close> sends EPSV when the
  network of the control connection's remote address is \<^verbatim>\<open>"tcp6"\<close>, and then takes the IP
  from the same address through the assertion \<^verbatim>\<open>.(*net.TCPAddr)\<close>.  No \<^verbatim>\<open>*net.TCPAddr\<close>
  has the network \<^verbatim>\<open>"tcp6"\<close>, so on this path the assertion never holds and no address is
  ever returned.
\<close>

lemma tcp6_not_TCPAddr: "Network a = ''tcp6'' \<Longrightarrow> assertTCPAddr a = None"
  by (cases a) simp_all

lemma PrintfLine_remoteAddr: "PrintfLine w c = (e, w') \<Longrightarrow> remoteAddr w' = remoteAddr w"
  by (auto simp: PrintfLine_def split: list.splits option.splits)

lemma sendCommand_remoteAddr:
  assumes "sendCommand w c = Some (res, w')"
  shows "remoteAddr w' = remoteAddr w"
proof (cases "PrintfLine w c")
  case (Pair e w1)
  note fr = PrintfLine_remoteAddr [OF Pair]
  show ?thesis
  proof (cases e)
    case None
    with assms Pair have "response w1 = Some (res, w')" by (simp add: sendCommand_def)
    from response_frame [OF this] fr show ?thesis by auto
  next
    case (Some err)
    with assms Pair fr show ?thesis by (auto simp: sendCommand_def)
  qed
qed

lemma obtainPassiveAddress_tcp6_no_address:
  assumes "Network (remoteAddr w) = ''tcp6''"
  shows "obtainPassiveAddress w \<noteq> Some (Inr addr, w')"
proof
  assume a: "obtainPassiveAddress w = Some (Inr addr, w')"
  with assms obtain r where s: "sendCommand w ''EPSV'' = Some (r, w')"
    and "assertTCPAddr (remoteAddr w') \<noteq> None"
    by (auto simp: obtainPassiveAddress_def split: option.splits prod.splits if_splits)
  moreover from sendCommand_remoteAddr [OF s] assms have "assertTCPAddr (remoteAddr w') = None"
    by (simp add: tcp6_not_TCPAddr)
  ultimately show False by simp
qed

text \<open>
  Claim C5 says that EPSV decoding returns the port between the delimiters and that the
  host is taken from the control connection's remote address.  The decoding does what the
  claim says (see above).  The host is not obtained: with a remote address whose network
  is \<^verbatim>\<open>"tcp6"\<close> and the reply \<^verbatim>\<open>229 Entering Extended Passive Mode (|||1031|)\<close>, the port
  1031 is decoded and \<^verbatim>\<open>obtainPassiveAddress\<close> then panics at the type assertion.
\<close>

theorem epsv_address_panics:
  "Network (OtherAddr ''tcp6'') = ''tcp6'' \<and>
   sendCommand (idle\<lparr>remoteAddr := OtherAddr ''tcp6'',
                      inbox := [Inr ''229 Entering Extended Passive Mode (|||1031|)'']\<rparr>) ''EPSV'' =
     Some ((\<lparr>Code = 229, Msg = ''Entering Extended Passive Mode (|||1031|)''\<rparr>, None),
           idle\<lparr>remoteAddr := OtherAddr ''tcp6'', outbox := [''EPSV'' @ CRLF]\<rparr>) \<and>
   parseEpsvReply ''Entering Extended Passive Mode (|||1031|)'' = Some (1031, None) \<and>
   obtainPassiveAddress (idle\<lparr>remoteAddr := OtherAddr ''tcp6'',
                               inbox := [Inr ''229 Entering Extended Passive Mode (|||1031|)'']\<rparr>) =
     None"
  by code_simp

section \<open>Properties of transfers\<close>

lemma PrintfLine_frame:
  "PrintfLine w c = (e, w') \<Longrightarrow>
     dialled w' = dialled w \<and> closeCalls w' = closeCalls w \<and> dscript w' = dscript w \<and>
     cscript w' = cscript w \<and> inbox w' = inbox w"
  by (auto simp: PrintfLine_def split: list.splits option.splits)

lemma sendCommand_sockets:
  assumes "sendCommand w c = Some (res, w')"
  shows "dialled w' = dialled w \<and> closeCalls w' = closeCalls w"
proof (cases "PrintfLine w c")
  case (Pair e w1)
  note fr = PrintfLine_frame [OF Pair]
  show ?thesis
  proof (cases e)
    case None
    with assms Pair have "response w1 = Some (res, w')" by (simp add: sendCommand_def)
    from response_frame [OF this] fr show ?thesis by auto
  next
    case (Some err)
    with assms Pair fr show ?thesis by (auto simp: sendCommand_def)
  qed
qed

lemma obtainPassiveAddress_sockets:
  assumes "obtainPassiveAddress w = Some (res, w')"
  shows "dialled w' = dialled w \<and> closeCalls w' = closeCalls w"
proof -
  from assms obtain c r where "sendCommand w c = Some (r, w')"
    by (auto simp: obtainPassiveAddress_def split: if_splits option.splits prod.splits)
  then show ?thesis by (rule sendCommand_sockets)
qed

lemma DialTCP_sockets:
  assumes "DialTCP w addr = (res, w')"
  shows "closeCalls w' = closeCalls w \<and>
         (case res of Inl e \<Rightarrow> dialled w' = dialled w
          | Inr k \<Rightarrow> k = length (dialled w) \<and> length (dialled w') = Suc k)"
  using assms by (auto simp: DialTCP_def split: list.splits option.splits)

lemma openPassive_sockets:
  assumes "openPassive w = Some (res, w')"
  shows "closeCalls w' = closeCalls w \<and>
         (case res of Inl e \<Rightarrow> dialled w' = dialled w
          | Inr k \<Rightarrow> k = length (dialled w) \<and> length (dialled w') = Suc k)"
proof -
  from assms consider
    (fail) e where "obtainPassiveAddress w = Some (Inl e, w')" "res = Inl e"
    | (dial) addr w1 where "obtainPassiveAddress w = Some (Inr addr, w1)" "DialTCP w1 addr = (res, w')"
    by (auto simp: openPassive_def split: option.splits prod.splits sum.splits)
  then show ?thesis
  proof cases
    case fail
    with obtainPassiveAddress_sockets [OF fail(1)] show ?thesis by simp
  next
    case dial
    with obtainPassiveAddress_sockets [OF dial(1)] DialTCP_sockets [OF dial(2)] show ?thesis
      by (auto split: sum.splits)
  qed
qed

lemma CloseSocket_sockets:
  "CloseSocket w k = (e, w') \<Longrightarrow>
     closeCalls w' = closeCalls w @ [k] \<and> dialled w' = dialled w \<and> inbox w' = inbox w"
  by (auto simp: CloseSocket_def split: list.splits)

lemma transfer_no_leak:
  assumes "transfer w command dataType = Some (Inl err, w')"
    and "length (dialled w) \<le> k" and "k < length (dialled w')"
  shows "k \<in> set (closeCalls w')"
proof -
  from assms(1) obtain r1 e1 w1 where s1: "sendCommand w (''TYPE '' @ dataType) = Some ((r1, e1), w1)"
    by (auto simp: transfer_def split: option.splits prod.splits)
  note f1 = sendCommand_sockets [OF s1]
  show ?thesis
  proof (cases "e1 = None \<and> PositiveComplete (Code r1)")
    case False
    with assms(1) s1 have "w' = w1"
      by (auto simp: transfer_def split: option.splits if_splits)
    with f1 assms(2,3) show ?thesis by simp
  next
    case True
    with assms(1) s1 obtain res2 w2 where o2: "openPassive w1 = Some (res2, w2)"
      by (auto simp: transfer_def split: option.splits prod.splits)
    note f2 = openPassive_sockets [OF o2]
    show ?thesis
    proof (cases res2)
      case (Inl e)
      with assms(1) s1 True o2 have "w' = w2"
        by (auto simp: transfer_def)
      with f1 f2 Inl assms(2,3) show ?thesis by simp
    next
      case (Inr sock)
      with assms(1) s1 True o2 obtain r3 e3 w3 where
        s3: "sendCommand w2 command = Some ((r3, e3), w3)"
        by (auto simp: transfer_def split: option.splits prod.splits)
      note f3 = sendCommand_sockets [OF s3]
      from assms(1) s1 True o2 Inr s3 have "w' = snd (CloseSocket w3 sock)"
        by (auto simp: transfer_def transfer_deferred_def split: option.splits if_splits)
      with CloseSocket_sockets [of w3 sock "fst (CloseSocket w3 sock)" "snd (CloseSocket w3 sock)"]
      have "closeCalls w' = closeCalls w3 @ [sock]" "dialled w' = dialled w3" by simp_all
      moreover from f1 f2 f3 Inr have "sock = length (dialled w)" "length (dialled w3) = Suc sock"
        by simp_all
      ultimately show ?thesis using assms(2,3) by simp
    qed
  qed
qed

text \<open>
  Claim C6.  Transfer cleanup: once the TYPE command has succeeded and the passive data
  connection is open, the transfer command has to get a positive reply.  If its round trip
  returns an error or a reply that is not positive, \<^verbatim>\<open>transfer\<close> returns that error and
  \<^verbatim>\<open>Close\<close> has been called on the socket just opened; otherwise it returns the
  connection, still open.  Whenever \<^verbatim>\<open>transfer\<close> fails, every socket dialled during the
  call has been closed.
\<close>

theorem transfer_cleanup:
  "(sendCommand w (''TYPE '' @ dataType) = Some ((r1, None), w1) \<and> PositiveComplete (Code r1) \<and>
    openPassive w1 = Some (Inr sock, w2) \<and> sendCommand w2 command = Some ((r2, e2), w3) \<longrightarrow>
      (if e2 = None \<and> Positive (Code r2)
       then transfer w command dataType = Some (Inr (TransferConn sock), w3)
       else transfer w command dataType =
              Some (Inl (case e2 of Some e \<Rightarrow> e | None \<Rightarrow> ReplyError r2), snd (CloseSocket w3 sock)) \<and>
            closeCalls (snd (CloseSocket w3 sock)) = closeCalls w3 @ [sock])) \<and>
   (transfer w command dataType = Some (Inl err, w') \<and>
    length (dialled w) \<le> k \<and> k < length (dialled w') \<longrightarrow> k \<in> set (closeCalls w'))"
proof (intro conjI impI)
  assume a: "sendCommand w (''TYPE '' @ dataType) = Some ((r1, None), w1) \<and> PositiveComplete (Code r1) \<and>
    openPassive w1 = Some (Inr sock, w2) \<and> sendCommand w2 command = Some ((r2, e2), w3)"
  have "closeCalls (snd (CloseSocket w3 sock)) = closeCalls w3 @ [sock]"
    using CloseSocket_sockets [of w3 sock "fst (CloseSocket w3 sock)" "snd (CloseSocket w3 sock)"]
    by simp
  with a show "if e2 = None \<and> Positive (Code r2)
       then transfer w command dataType = Some (Inr (TransferConn sock), w3)
       else transfer w command dataType =
              Some (Inl (case e2 of Some e \<Rightarrow> e | None \<Rightarrow> ReplyError r2), snd (CloseSocket w3 sock)) \<and>
            closeCalls (snd (CloseSocket w3 sock)) = closeCalls w3 @ [sock]"
    by (cases e2) (simp_all add: transfer_def transfer_deferred_def)
next
  assume "transfer w command dataType = Some (Inl err, w') \<and>
    length (dialled w) \<le> k \<and> k < length (dialled w')"
  then show "k \<in> set (closeCalls w')"
    using transfer_no_leak by blast
qed

theorem transfer_cleanup_witness:
  "transfer (idle\<lparr>inbox := [Inr ''200 Type set to I'',
                          Inr ''227 Entering Passive Mode (192,0,2,47,4,7)'',
                          Inr ''550 No such file'']\<rparr>) ''RETR x'' ''I'' =
     Some (Inl (ReplyError \<lparr>Code = 550, Msg = ''No such file''\<rparr>),
           idle\<lparr>outbox := [''TYPE I'' @ CRLF, ''PASV'' @ CRLF, ''RETR x'' @ CRLF],
                dialled := [\<lparr>IP = [192, 0, 2, 47], Port = 1031\<rparr>],
                closeCalls := [0]\<rparr>) \<and>
   0 \<in> set (closeCalls (idle\<lparr>outbox := [''TYPE I'' @ CRLF, ''PASV'' @ CRLF, ''RETR x'' @ CRLF],
                dialled := [\<lparr>IP = [192, 0, 2, 47], Port = 1031\<rparr>],
                closeCalls := [0]\<rparr>))"
proof -
  let ?w = "idle\<lparr>inbox := [Inr ''200 Type set to I'',
                          Inr ''227 Entering Passive Mode (192,0,2,47,4,7)'',
                          Inr ''550 No such file'']\<rparr>"
  let ?w' = "idle\<lparr>outbox := [''TYPE I'' @ CRLF, ''PASV'' @ CRLF, ''RETR x'' @ CRLF],
                dialled := [\<lparr>IP = [192, 0, 2, 47], Port = 1031\<rparr>],
                closeCalls := [0]\<rparr>"
  let ?e = "ReplyError \<lparr>Code = 550, Msg = ''No such file''\<rparr>"
  have t: "transfer ?w ''RETR x'' ''I'' = Some (Inl ?e, ?w')"
    by code_simp
  have "length (dialled ?w) \<le> 0 \<and> 0 < length (dialled ?w')"
    by (simp add: idle_def)
  with t transfer_cleanup [where w = ?w and command = "''RETR x''" and dataType = "''I''"
      and err = ?e and w' = ?w' and k = 0]
  have "0 \<in> set (closeCalls ?w')" by blast
  with t show ?thesis by blast
qed

text \<open>
  Claim C7, amended.  Closing the data connection closes the socket first.  If that fails,
  its error is returned at once and the control connection is not read.  Otherwise exactly
  one reply is read from the control connection: an error of that read is returned, a
  reply that is not positive and complete is returned as the error (the socket is closed
  all the same), and a positive and complete reply gives success.
\<close>

theorem transferConn_Close_sequencing:
  "(CloseSocket w (ReadWriteCloser conn) = (Some e, w1) \<longrightarrow>
      transferConn_Close w conn = Some (Some e, w1) \<and> inbox w1 = inbox w) \<and>
   (CloseSocket w (ReadWriteCloser conn) = (None, w1) \<and> response w1 = Some ((reply, err), w2) \<longrightarrow>
      transferConn_Close w conn =
        Some (case err of
                Some e \<Rightarrow> Some e
              | None \<Rightarrow> if PositiveComplete (Code reply) then None else Some (ReplyError reply),
              w2) \<and>
      ReadWriteCloser conn \<in> set (closeCalls w2))"
proof (intro conjI impI)
  assume a: "CloseSocket w (ReadWriteCloser conn) = (Some e, w1)"
  then show "transferConn_Close w conn = Some (Some e, w1)"
    by (simp add: transferConn_Close_def)
  from CloseSocket_sockets [OF a] show "inbox w1 = inbox w" by simp
next
  assume a: "CloseSocket w (ReadWriteCloser conn) = (None, w1) \<and> response w1 = Some ((reply, err), w2)"
  then show "transferConn_Close w conn =
        Some (case err of
                Some e \<Rightarrow> Some e
              | None \<Rightarrow> if PositiveComplete (Code reply) then None else Some (ReplyError reply),
              w2)"
    by (cases err) (simp_all add: transferConn_Close_def)
  from a CloseSocket_sockets [of w "ReadWriteCloser conn" None w1]
  have "ReadWriteCloser conn \<in> set (closeCalls w1)" by simp
  moreover from a response_frame [of w1 "(reply, err)" w2] have "closeCalls w2 = closeCalls w1"
    by auto
  ultimately show "ReadWriteCloser conn \<in> set (closeCalls w2)" by simp
qed


theorem transferConn_Close_sequencing_witness:
  "transferConn_Close (idle\<lparr>inbox := [Inr ''426 Transfer aborted'']\<rparr>) (TransferConn 0) =
     Some (Some (ReplyError \<lparr>Code = 426, Msg = ''Transfer aborted''\<rparr>), idle\<lparr>closeCalls := [0]\<rparr>) \<and>
   transferConn_Close (idle\<lparr>inbox := [Inr ''226 Transfer complete'']\<rparr>) (TransferConn 0) =
     Some (None, idle\<lparr>closeCalls := [0]\<rparr>) \<and>
   transferConn_Close (idle\<lparr>inbox := [Inr ''226 Transfer complete''],
                            cscript := [Some (TransportError ''close'')]\<rparr>) (TransferConn 0) =
     Some (Some (TransportError ''close''),
           idle\<lparr>inbox := [Inr ''226 Transfer complete''], closeCalls := [0]\<rparr>)"
proof -
  let ?w = "idle\<lparr>inbox := [Inr ''426 Transfer aborted'']\<rparr>"
  let ?v = "idle\<lparr>inbox := [Inr ''226 Transfer complete'']\<rparr>"
  let ?u = "idle\<lparr>inbox := [Inr ''226 Transfer complete''], cscript := [Some (TransportError ''close'')]\<rparr>"
  have c1: "CloseSocket ?w (ReadWriteCloser (TransferConn 0)) = (None, ?w\<lparr>closeCalls := [0]\<rparr>)"
    by code_simp
  have r1: "response (?w\<lparr>closeCalls := [0]\<rparr>) =
      Some ((\<lparr>Code = 426, Msg = ''Transfer aborted''\<rparr>, None), idle\<lparr>closeCalls := [0]\<rparr>)"
    by code_simp
  have p1: "\<not> PositiveComplete 426"
    by (simp add: PositiveComplete_def signed_divide_int_def)
  have 1: "transferConn_Close ?w (TransferConn 0) =
     Some (Some (ReplyError \<lparr>Code = 426, Msg = ''Transfer aborted''\<rparr>), idle\<lparr>closeCalls := [0]\<rparr>)"
    using transferConn_Close_sequencing [where w = ?w and conn = "TransferConn 0"
        and ?w1.0 = "?w\<lparr>closeCalls := [0]\<rparr>" and reply = "\<lparr>Code = 426, Msg = ''Transfer aborted''\<rparr>"
        and err = None and ?w2.0 = "idle\<lparr>closeCalls := [0]\<rparr>"] c1 r1 p1
    by simp
  have c2: "CloseSocket ?v (ReadWriteCloser (TransferConn 0)) = (None, ?v\<lparr>closeCalls := [0]\<rparr>)"
    by code_simp
  have r2: "response (?v\<lparr>closeCalls := [0]\<rparr>) =
      Some ((\<lparr>Code = 226, Msg = ''Transfer complete''\<rparr>, None), idle\<lparr>closeCalls := [0]\<rparr>)"
    by code_simp
  have p2: "PositiveComplete 226"
    by (simp add: PositiveComplete_def signed_divide_int_def)
  have 2: "transferConn_Close ?v (TransferConn 0) = Some (None, idle\<lparr>closeCalls := [0]\<rparr>)"
    using transferConn_Close_sequencing [where w = ?v and conn = "TransferConn 0"
        and ?w1.0 = "?v\<lparr>closeCalls := [0]\<rparr>" and reply = "\<lparr>Code = 226, Msg = ''Transfer complete''\<rparr>"
        and err = None and ?w2.0 = "idle\<lparr>closeCalls := [0]\<rparr>"] c2 r2 p2
    by simp
  have c3: "CloseSocket ?u (ReadWriteCloser (TransferConn 0)) =
      (Some (TransportError ''close''), ?v\<lparr>closeCalls := [0]\<rparr>)"
    by code_simp
  have 3: "transferConn_Close ?u (TransferConn 0) =
     Some (Some (TransportError ''close''), ?v\<lparr>closeCalls := [0]\<rparr>)"
    using transferConn_Close_sequencing [where w = ?u and conn = "TransferConn 0"
        and e = "TransportError ''close''" and ?w1.0 = "?v\<lparr>closeCalls := [0]\<rparr>"] c3
    by simp
  from 1 2 3 show ?thesis by blast
qed

text \<open>
  The claim as it was stated fails when the socket's \<^verbatim>\<open>Close\<close> fails: no reply is read
  then, so a failure of the control connection is not surfaced, and a confirmation the
  server has sent stays unread.
\<close>

theorem transferConn_Close_counterexample:
  "transferConn_Close (idle\<lparr>inbox := [Inl (TransportError ''reset'')],
                            cscript := [Some (TransportError ''close'')]\<rparr>) (TransferConn 0) =
     Some (Some (TransportError ''close''),
           idle\<lparr>inbox := [Inl (TransportError ''reset'')], closeCalls := [0]\<rparr>) \<and>
   response (idle\<lparr>inbox := [Inl (TransportError ''reset'')], closeCalls := [0]\<rparr>) =
     Some ((zeroReply, Some (TransportError ''reset'')), idle\<lparr>closeCalls := [0]\<rparr>) \<and>
   transferConn_Close (idle\<lparr>inbox := [Inr ''226 Transfer complete''],
                            cscript := [Some (TransportError ''close'')]\<rparr>) (TransferConn 0) =
     Some (Some (TransportError ''close''),
           idle\<lparr>inbox := [Inr ''226 Transfer complete''], closeCalls := [0]\<rparr>)"
  by code_simp

section \<open>Properties of the PASV decoder\<close>



























end
